theory Spec2Isabelle
  imports Complex_Main "HOL-Library.Sublist" "HOL-Library.Word"
begin

section \<open>KnowledgeScout frontend: the session controller of \<open>src/app/page.tsx\<close>\<close>

text \<open>
  The page component \<open>Home\<close> holds five state variables; its handlers
  \<open>checkApiStatus\<close>, \<open>fetchDocuments\<close>, \<open>handleFileUpload\<close> and \<open>askQuestion\<close> talk to a
  backend with \<open>fetch\<close>. A handler is modelled as a function from the outcome of each
  network request to the sequence of observable actions it performs, in program order:
  requests issued, alerts, console diagnostics and calls of the state setters. The state
  after a call is the fold of its setter calls over the state before it; the properties
  below are about one call taken alone, with no other handler running in between.
\<close>

subsection \<open>Strings\<close>

text \<open>
  A string is the list of its characters. \<open>toLowerCase\<close> maps the letters \<open>A\<close> to
  \<open>Z\<close> to \<open>a\<close> to \<open>z\<close> and keeps every other character: the handlers only compare the
  result with the ASCII suffixes \<open>.txt\<close>, \<open>.pdf\<close>, \<open>.doc\<close> and \<open>.docx\<close>.
\<close>

definition lower_char :: "char \<Rightarrow> char" where
  "lower_char c =
     (case map_of (zip ''ABCDEFGHIJKLMNOPQRSTUVWXYZ'' ''abcdefghijklmnopqrstuvwxyz'') c of
        None \<Rightarrow> c
      | Some l \<Rightarrow> l)"

definition toLowerCase :: "string \<Rightarrow> string" where
  "toLowerCase s = map lower_char s"

text \<open>\<open>s.endsWith(t)\<close>: the last \<open>length t\<close> characters of \<open>s\<close> are \<open>t\<close>.\<close>

definition endsWith :: "string \<Rightarrow> string \<Rightarrow> bool" where
  "endsWith s t = (length t \<le> length s \<and> drop (length s - length t) s = t)"

text \<open>
  The question is the value of the text input, and \<open>trim\<close> looks at each of its
  characters. It is therefore kept as JavaScript has it, a sequence of 16-bit code units;
  \<open>utf16\<close> gives the code units of a text written with characters below U+0100.
\<close>

type_synonym jsstring = "16 word list"

definition utf16 :: "string \<Rightarrow> jsstring" where
  "utf16 s = map of_char s"

text \<open>
  \<open>s.trim()\<close> removes white space and line terminators at both ends. White space is
  U+0009, U+000B, U+000C, U+FEFF and the space separators U+0020, U+00A0, U+1680, U+2000
  to U+200A, U+202F, U+205F and U+3000; the line terminators are U+000A, U+000D, U+2028
  and U+2029. Each of them is one code unit.
\<close>

definition isWhiteSpace :: "16 word \<Rightarrow> bool" where
  "isWhiteSpace c =
     (c \<in> set [0x0009, 0x000A, 0x000B, 0x000C, 0x000D, 0x0020, 0x00A0, 0x1680,
                0x2000, 0x2001, 0x2002, 0x2003, 0x2004, 0x2005, 0x2006, 0x2007, 0x2008,
                0x2009, 0x200A, 0x2028, 0x2029, 0x202F, 0x205F, 0x3000, 0xFEFF])"

definition trim :: "jsstring \<Rightarrow> jsstring" where
  "trim s = rev (dropWhile isWhiteSpace (rev (dropWhile isWhiteSpace s)))"

subsection \<open>Display helpers\<close>

text \<open>The three icons, as the UTF-8 bytes of U+1F4C4, U+1F4CB and U+1F4DD.\<close>

definition icon_page :: string where
  "icon_page = [CHR 0xF0, CHR 0x9F, CHR 0x93, CHR 0x84]"

definition icon_clipboard :: string where
  "icon_clipboard = [CHR 0xF0, CHR 0x9F, CHR 0x93, CHR 0x8B]"

definition icon_memo :: string where
  "icon_memo = [CHR 0xF0, CHR 0x9F, CHR 0x93, CHR 0x9D]"

definition getFileIcon :: "string \<Rightarrow> string" where
  "getFileIcon filename =
     (if endsWith (toLowerCase filename) ''.pdf'' then icon_page
      else if endsWith (toLowerCase filename) ''.doc'' \<or> endsWith (toLowerCase filename) ''.docx''
        then icon_clipboard
      else icon_memo)"

definition getFileType :: "string \<Rightarrow> string" where
  "getFileType filename =
     (if endsWith (toLowerCase filename) ''.pdf'' then ''PDF''
      else if endsWith (toLowerCase filename) ''.doc'' then ''DOC''
      else if endsWith (toLowerCase filename) ''.docx'' then ''DOCX''
      else ''TXT'')"

subsection \<open>Values received from the backend\<close>

text \<open>
  \<open>response.json()\<close> yields a JavaScript value built from JSON text. The handlers store
  parts of it in the state without checking their shape (the interfaces \<open>Document\<close> and
  \<open>ChatMessage\<close> are erased at run time), so the state holds such values as they are.
  An object is the list of its members in the order of the text; a later member hides an
  earlier one with the same key.
\<close>

datatype json =
    JNull
  | JBool bool
  | JNum rat
  | JStr string
  | JArr "json list"
  | JObj "(string \<times> json) list"

datatype js_error =
    NetworkError          \<comment> \<open>\<open>fetch\<close> rejects\<close>
  | SyntaxError           \<comment> \<open>\<open>response.json()\<close> rejects: the body is not JSON\<close>
  | TypeError             \<comment> \<open>a property of \<open>null\<close> is read\<close>
  | BackendNotResponding  \<comment> \<open>\<open>new Error('Backend not responding')\<close>\<close>

text \<open>
  \<open>v.k\<close> for one of the keys the handlers read (\<open>documents\<close>, \<open>answer\<close>, \<open>sources\<close>,
  \<open>filename\<close>, \<open>file_type\<close>): it throws on \<open>null\<close>, looks the member up in an object and
  is \<open>undefined\<close> (\<open>None\<close>) on every other value.
\<close>

fun get_prop :: "json \<Rightarrow> string \<Rightarrow> js_error + json option" where
  "get_prop JNull k = Inl TypeError"
| "get_prop (JObj members) k = Inr (map_of (rev members) k)"
| "get_prop (JBool b) k = Inr None"
| "get_prop (JNum n) k = Inr None"
| "get_prop (JStr s) k = Inr None"
| "get_prop (JArr xs) k = Inr None"

fun truthy :: "json option \<Rightarrow> bool" where
  "truthy None = False"
| "truthy (Some JNull) = False"
| "truthy (Some (JBool b)) = b"
| "truthy (Some (JNum n)) = (n \<noteq> 0)"
| "truthy (Some (JStr s)) = (s \<noteq> [])"
| "truthy (Some (JArr xs)) = True"
| "truthy (Some (JObj members)) = True"

text \<open>\<open>v || []\<close>\<close>

definition or_empty :: "json option \<Rightarrow> json" where
  "or_empty v = (case v of None \<Rightarrow> JArr [] | Some x \<Rightarrow> if truthy v then x else JArr [])"

text \<open>
  The conversion of a value to a string throws a \<open>TypeError\<close> for an object with a
  member \<open>toString\<close> (the member, which is not a function, hides
  \<open>Object.prototype.toString\<close>, and \<open>valueOf\<close> yields no primitive value), and for an
  array with such an element, which \<open>join\<close> converts in turn.
\<close>

fun toString_throws :: "json \<Rightarrow> bool" where
  "toString_throws (JObj members) = (''toString'' \<in> set (map fst members))"
| "toString_throws (JArr xs) = list_ex toString_throws xs"
| "toString_throws JNull = False"
| "toString_throws (JBool b) = False"
| "toString_throws (JNum n) = False"
| "toString_throws (JStr s) = False"

text \<open>\<open>${v.k}\<close> in a template literal: the value read, when its conversion succeeds.\<close>

definition interpolated :: "json \<Rightarrow> string \<Rightarrow> js_error + json option" where
  "interpolated v k =
     (case get_prop v k of
        Inl error \<Rightarrow> Inl error
      | Inr None \<Rightarrow> Inr None
      | Inr (Some x) \<Rightarrow> if toString_throws x then Inl TypeError else Inr (Some x))"

text \<open>
  A settled \<open>fetch\<close>: rejected, or resolved with a response. \<open>body\<close> is the value
  \<open>response.json()\<close> resolves to, \<open>None\<close> when it rejects.
\<close>

record response =
  status :: nat
  body :: "json option"

definition ok :: "response \<Rightarrow> bool" where
  "ok r = (200 \<le> status r \<and> status r \<le> 299)"

datatype fetch_result = Rejected | Resolved response

subsection \<open>State and actions\<close>

record File =
  name :: string

text \<open>The fields \<open>question\<close>, \<open>answer\<close> and \<open>sources\<close> of \<open>ChatMessage\<close>.\<close>

record ChatMessage =
  cm_question :: jsstring
  cm_answer :: "json option"
  cm_sources :: json

datatype api_status = Checking | Online | Offline

record state =
  documents :: json
  question :: jsstring
  chatHistory :: "ChatMessage list"
  loading :: bool
  apiStatus :: api_status

definition initial_state :: state where
  "initial_state =
     \<lparr>documents = JArr [], question = [], chatHistory = [], loading = False,
      apiStatus = Checking\<rparr>"

datatype request =
    GetRoot
  | GetDocuments
  | PostUpload File
  | PostAsk jsstring

datatype alert_msg =
    InvalidFileType                             \<comment> \<open>line 53\<close>
  | UploadSucceeded "json option" "json option" \<comment> \<open>line 69, with \<open>filename\<close> and \<open>file_type\<close>\<close>
  | UploadFailed                                \<comment> \<open>line 72\<close>
  | UploadFailedWith js_error                   \<comment> \<open>line 75\<close>
  | AskFailed                                   \<comment> \<open>line 118\<close>

text \<open>
  \<open>AppendChatHistory m\<close> is \<open>setChatHistory(prev => [...prev, m])\<close>. React runs the
  updater itself, outside the handler's \<open>try\<close>: when building \<open>m\<close> throws, nothing is
  appended, the handler's \<open>catch\<close> does not run and the error reaches the render
  (\<open>UpdaterThrows\<close>).
\<close>

datatype event =
    Fetch request
  | Alert alert_msg
  | ConsoleError js_error
  | SetDocuments json
  | SetQuestion jsstring
  | AppendChatHistory ChatMessage
  | UpdaterThrows js_error
  | SetLoading bool
  | SetApiStatus api_status

fun apply_event :: "state \<Rightarrow> event \<Rightarrow> state" where
  "apply_event s (SetDocuments d) = s\<lparr>documents := d\<rparr>"
| "apply_event s (SetQuestion q) = s\<lparr>question := q\<rparr>"
| "apply_event s (AppendChatHistory m) = s\<lparr>chatHistory := chatHistory s @ [m]\<rparr>"
| "apply_event s (SetLoading b) = s\<lparr>loading := b\<rparr>"
| "apply_event s (SetApiStatus a) = s\<lparr>apiStatus := a\<rparr>"
| "apply_event s (Fetch r) = s"
| "apply_event s (Alert m) = s"
| "apply_event s (ConsoleError e) = s"
| "apply_event s (UpdaterThrows e) = s"

definition run :: "state \<Rightarrow> event list \<Rightarrow> state" where
  "run s evs = foldl apply_event s evs"

text \<open>The requests issued and the alerts shown in a trace.\<close>

fun requests :: "event list \<Rightarrow> request list" where
  "requests [] = []"
| "requests (Fetch r # evs) = r # requests evs"
| "requests (e # evs) = requests evs"

fun alerts :: "event list \<Rightarrow> alert_msg list" where
  "alerts [] = []"
| "alerts (Alert m # evs) = m # alerts evs"
| "alerts (e # evs) = alerts evs"

subsection \<open>The handlers\<close>

definition checkApiStatus :: "fetch_result \<Rightarrow> event list" where
  "checkApiStatus r =
     Fetch GetRoot #
     (case r of
        Resolved response \<Rightarrow>
          if ok response then [SetApiStatus Online] else [SetApiStatus Offline]
      | Rejected \<Rightarrow> [SetApiStatus Offline])"

text \<open>
  \<open>fetchDocuments\<close> runs up to its \<open>await fetch\<close> when it is called and resumes when
  the request settles. It never reads \<open>response.ok\<close>.
\<close>

definition fetchDocuments_start :: "event list" where
  "fetchDocuments_start = [Fetch GetDocuments]"

definition fetchDocuments_resume :: "fetch_result \<Rightarrow> event list" where
  "fetchDocuments_resume r =
     (case r of
        Rejected \<Rightarrow> [ConsoleError NetworkError]
      | Resolved response \<Rightarrow>
          (case body response of
             None \<Rightarrow> [ConsoleError SyntaxError]
           | Some data \<Rightarrow>
               (case get_prop data ''documents'' of
                  Inl error \<Rightarrow> [ConsoleError error]
                | Inr docs \<Rightarrow> [SetDocuments (or_empty docs)])))"

definition fetchDocuments :: "fetch_result \<Rightarrow> event list" where
  "fetchDocuments r = fetchDocuments_start @ fetchDocuments_resume r"

definition allowedTypes :: "string list" where
  "allowedTypes = [''.txt'', ''.pdf'', ''.doc'', ''.docx'']"

definition isValidType :: "string \<Rightarrow> bool" where
  "isValidType fileName = list_ex (\<lambda>type. endsWith fileName type) allowedTypes"

text \<open>
  The \<open>try\<close> block of \<open>handleFileUpload\<close> after \<open>await fetch\<close>: the error it throws, or
  the actions it performs together with those of the \<open>fetchDocuments\<close> call it starts
  and does not await (they happen once the handler has returned).
\<close>

definition upload_response :: "fetch_result \<Rightarrow> fetch_result \<Rightarrow> js_error + event list \<times> event list" where
  "upload_response r rd =
     (case r of
        Rejected \<Rightarrow> Inl NetworkError
      | Resolved response \<Rightarrow>
          if ok response then
            (case body response of
               None \<Rightarrow> Inl SyntaxError
             | Some result \<Rightarrow>
                 (case interpolated result ''filename'' of
                    Inl error \<Rightarrow> Inl error
                  | Inr filename \<Rightarrow>
                      (case interpolated result ''file_type'' of
                         Inl error \<Rightarrow> Inl error
                       | Inr file_type \<Rightarrow>
                           Inr (Alert (UploadSucceeded filename file_type) # fetchDocuments_start,
                                fetchDocuments_resume rd))))
          else Inr ([Alert UploadFailed], []))"

text \<open>
  \<open>handleFileUpload files r rd\<close>: \<open>files\<close> is \<open>event.target.files?.[0]\<close>, \<open>r\<close> the outcome
  of the upload request and \<open>rd\<close> that of the document list request. The result is the
  handler's own actions up to its return, and the actions that follow it.
\<close>

definition handleFileUpload ::
  "File option \<Rightarrow> fetch_result \<Rightarrow> fetch_result \<Rightarrow> event list \<times> event list" where
  "handleFileUpload files r rd =
     (case files of
        None \<Rightarrow> ([], [])
      | Some file \<Rightarrow>
          if \<not> isValidType (toLowerCase (name file)) then ([Alert InvalidFileType], [])
          else
            (case (case upload_response r rd of
                     Inl error \<Rightarrow> ([Alert (UploadFailedWith error)], [])
                   | Inr acts \<Rightarrow> acts) of
               (own, later) \<Rightarrow>
                 ([SetLoading True, Fetch (PostUpload file)] @ own @ [SetLoading False], later)))"

text \<open>All actions of a call, those that follow the handler's return last.\<close>

definition in_order :: "event list \<times> event list \<Rightarrow> event list" where
  "in_order p = fst p @ snd p"

text \<open>The \<open>try\<close> block of \<open>askQuestion\<close> after \<open>await fetch\<close>, for the question \<open>q\<close>.\<close>

definition ask_response :: "jsstring \<Rightarrow> fetch_result \<Rightarrow> js_error + event list" where
  "ask_response q r =
     (case r of
        Rejected \<Rightarrow> Inl NetworkError
      | Resolved response \<Rightarrow>
          if \<not> ok response then Inl BackendNotResponding
          else
            (case body response of
               None \<Rightarrow> Inl SyntaxError
             | Some data \<Rightarrow>
                 Inr [(case get_prop data ''answer'' of
                         Inl error \<Rightarrow> UpdaterThrows error
                       | Inr answer \<Rightarrow>
                           (case get_prop data ''sources'' of
                              Inl error \<Rightarrow> UpdaterThrows error
                            | Inr sources \<Rightarrow>
                                AppendChatHistory
                                  \<lparr>cm_question = q, cm_answer = answer,
                                   cm_sources = or_empty sources\<rparr>)),
                      SetQuestion []]))"

text \<open>\<open>askQuestion s r\<close>: \<open>s\<close> is the state the handler is called in.\<close>

definition askQuestion :: "state \<Rightarrow> fetch_result \<Rightarrow> event list" where
  "askQuestion s r =
     (if trim (question s) = [] then []
      else
        [SetLoading True, Fetch (PostAsk (question s))] @
        (case ask_response (question s) r of
           Inl error \<Rightarrow> [Alert AskFailed]
         | Inr evs \<Rightarrow> evs) @
        [SetLoading False])"

subsection \<open>Auxiliary notions and sample inputs\<close>

text \<open>An action that writes the busy flag \<open>loading\<close>.\<close>

definition sets_loading :: "event \<Rightarrow> bool" where
  "sets_loading e = (case e of SetLoading b \<Rightarrow> True | _ \<Rightarrow> False)"

text \<open>A document as the backend lists it, and responses of the three endpoints.\<close>

definition sample_document :: json where
  "sample_document =
     JObj [(''id'', JStr ''1''), (''filename'', JStr ''a.txt''), (''content'', JStr ''X is Y'')]"

definition sample_file :: File where
  "sample_file = \<lparr>name = ''Report.PDF''\<rparr>"

definition upload_accepted :: fetch_result where
  "upload_accepted =
     Resolved \<lparr>status = 200,
       body = Some (JObj [(''filename'', JStr ''Report.PDF''), (''file_type'', JStr ''pdf'')])\<rparr>"

definition list_of_one :: fetch_result where
  "list_of_one =
     Resolved \<lparr>status = 200, body = Some (JObj [(''documents'', JArr [sample_document])])\<rparr>"

definition answer_given :: fetch_result where
  "answer_given =
     Resolved \<lparr>status = 200,
       body = Some (JObj [(''answer'', JStr ''X is Y''),
                          (''sources'', JArr [JObj [(''filename'', JStr ''a.txt'')]])])\<rparr>"

definition server_error :: fetch_result where
  "server_error =
     Resolved \<lparr>status = 500, body = Some (JObj [(''detail'', JStr ''Internal Server Error'')])\<rparr>"

definition upload_unparsed :: fetch_result where
  "upload_unparsed = Resolved \<lparr>status = 200, body = None\<rparr>"

definition asking :: state where
  "asking = initial_state\<lparr>question := utf16 ''What is X?''\<rparr>"

section \<open>Properties\<close>

subsection \<open>Basic facts\<close>

lemma endsWith_suffix: "endsWith s t \<longleftrightarrow> suffix t s"
proof
  assume "endsWith s t"
  then have "s = take (length s - length t) s @ t"
    by (metis append_take_drop_id endsWith_def)
  then show "suffix t s" by (metis suffixI)
next
  assume "suffix t s"
  then obtain zs where "s = zs @ t" by (auto simp: suffix_def)
  then show "endsWith s t" by (simp add: endsWith_def)
qed

lemma suffix_last: "suffix xs ys \<Longrightarrow> xs \<noteq> [] \<Longrightarrow> last ys = last xs"
  by (auto simp: suffix_def)

lemma docx_not_doc: "suffix ''.docx'' l \<Longrightarrow> \<not> suffix ''.doc'' l"
  using suffix_last[of "''.docx''" l] suffix_last[of "''.doc''" l] by auto

lemma docx_not_pdf: "suffix ''.docx'' l \<Longrightarrow> \<not> suffix ''.pdf'' l"
  using suffix_last[of "''.docx''" l] suffix_last[of "''.pdf''" l] by auto

lemma doc_not_pdf: "suffix ''.doc'' l \<Longrightarrow> \<not> suffix ''.pdf'' l"
  using suffix_last[of "''.doc''" l] suffix_last[of "''.pdf''" l] by auto

lemmas string_eval = endsWith_def toLowerCase_def lower_char_def

lemma isValidType_suffix:
  "isValidType l \<longleftrightarrow> (\<exists>ext \<in> set [''.txt'', ''.pdf'', ''.doc'', ''.docx'']. suffix ext l)"
  by (simp add: isValidType_def allowedTypes_def endsWith_suffix)

text \<open>The trimmed form is empty exactly when every code unit is one that \<open>trim\<close> removes.\<close>

lemma dropWhile_all: "(\<forall>x \<in> set (dropWhile P xs). P x) \<longleftrightarrow> (\<forall>x \<in> set xs. P x)"
proof
  assume a: "\<forall>x \<in> set (dropWhile P xs). P x"
  have "dropWhile P xs = []"
  proof (rule ccontr)
    assume n: "dropWhile P xs \<noteq> []"
    then have "\<not> P (hd (dropWhile P xs))" by (rule hd_dropWhile)
    moreover from n have "hd (dropWhile P xs) \<in> set (dropWhile P xs)" by (rule hd_in_set)
    ultimately show False using a by blast
  qed
  then show "\<forall>x \<in> set xs. P x" by (simp only: dropWhile_eq_Nil_conv)
next
  assume "\<forall>x \<in> set xs. P x"
  then show "\<forall>x \<in> set (dropWhile P xs). P x" by (meson set_dropWhileD)
qed

lemma trim_empty_iff: "trim s = [] \<longleftrightarrow> (\<forall>c \<in> set s. isWhiteSpace c)"
  by (simp add: trim_def dropWhile_eq_Nil_conv dropWhile_all)

lemma icons_distinct:
  "icon_page \<noteq> icon_clipboard" "icon_page \<noteq> icon_memo" "icon_clipboard \<noteq> icon_memo"
  by (simp_all add: icon_page_def icon_clipboard_def icon_memo_def)

lemma run_Nil: "run s [] = s"
  by (simp add: run_def)

lemma run_Cons: "run s (e # evs) = run (apply_event s e) evs"
  by (simp add: run_def)

lemma run_append: "run s (xs @ ys) = run (run s xs) ys"
  by (simp add: run_def)

subsection \<open>Display helpers\<close>

text \<open>
  C7. \<open>getFileType\<close> depends only on the suffix of the lowercased name: a name ending in
  \<open>.pdf\<close> gives \<open>PDF\<close>, one ending in \<open>.doc\<close> gives \<open>DOC\<close>, one ending in \<open>.docx\<close> gives
  \<open>DOCX\<close>, every other name gives \<open>TXT\<close>; \<open>report.PDF\<close> gives \<open>PDF\<close> and \<open>notes\<close>
  gives \<open>TXT\<close>.
\<close>

theorem getFileType_suffix:
  "(suffix ''.pdf'' (toLowerCase f) \<longrightarrow> getFileType f = ''PDF'') \<and>
   (suffix ''.doc'' (toLowerCase f) \<longrightarrow> getFileType f = ''DOC'') \<and>
   (suffix ''.docx'' (toLowerCase f) \<longrightarrow> getFileType f = ''DOCX'') \<and>
   (\<not> suffix ''.pdf'' (toLowerCase f) \<and> \<not> suffix ''.doc'' (toLowerCase f) \<and>
    \<not> suffix ''.docx'' (toLowerCase f) \<longrightarrow> getFileType f = ''TXT'') \<and>
   getFileType ''report.PDF'' = ''PDF'' \<and> getFileType ''notes'' = ''TXT''"
proof -
  have "getFileType ''report.PDF'' = ''PDF''" and "getFileType ''notes'' = ''TXT''"
    by (simp_all add: getFileType_def string_eval)
  then show ?thesis
    using docx_not_doc[of "toLowerCase f"] docx_not_pdf[of "toLowerCase f"]
      doc_not_pdf[of "toLowerCase f"]
    by (auto simp: getFileType_def endsWith_suffix)
qed

theorem getFileType_suffix_witness:
  "suffix ''.pdf'' (toLowerCase ''Report.PDF'') \<and> getFileType ''Report.PDF'' = ''PDF'' \<and>
   suffix ''.doc'' (toLowerCase ''old.Doc'') \<and> getFileType ''old.Doc'' = ''DOC'' \<and>
   suffix ''.docx'' (toLowerCase ''new.DOCX'') \<and> getFileType ''new.DOCX'' = ''DOCX'' \<and>
   \<not> suffix ''.pdf'' (toLowerCase ''notes'') \<and> \<not> suffix ''.doc'' (toLowerCase ''notes'') \<and>
   \<not> suffix ''.docx'' (toLowerCase ''notes'') \<and> getFileType ''notes'' = ''TXT''"
proof -
  have pdf: "suffix ''.pdf'' (toLowerCase ''Report.PDF'')"
    and doc: "suffix ''.doc'' (toLowerCase ''old.Doc'')"
    and docx: "suffix ''.docx'' (toLowerCase ''new.DOCX'')"
    and none: "\<not> suffix ''.pdf'' (toLowerCase ''notes'')" "\<not> suffix ''.doc'' (toLowerCase ''notes'')"
      "\<not> suffix ''.docx'' (toLowerCase ''notes'')"
    by (simp_all add: endsWith_suffix[symmetric] string_eval)
  show ?thesis
    using pdf doc docx none getFileType_suffix[of "''Report.PDF''"]
      getFileType_suffix[of "''old.Doc''"] getFileType_suffix[of "''new.DOCX''"]
      getFileType_suffix[of "''notes''"]
    by blast
qed

text \<open>
  C10. The two helpers classify alike: the page icon goes with \<open>PDF\<close>, the clipboard icon
  with \<open>DOC\<close> and \<open>DOCX\<close>, the memo icon (the fallback) with \<open>TXT\<close> (the fallback).
\<close>

theorem getFileIcon_getFileType:
  "(getFileIcon f = icon_page \<longleftrightarrow> getFileType f = ''PDF'') \<and>
   (getFileIcon f = icon_clipboard \<longleftrightarrow> getFileType f = ''DOC'' \<or> getFileType f = ''DOCX'') \<and>
   (getFileIcon f = icon_memo \<longleftrightarrow> getFileType f = ''TXT'')"
  using icons_distinct by (auto simp: getFileIcon_def getFileType_def)

lemmas sample_eval = sample_file_def upload_accepted_def list_of_one_def answer_given_def
  server_error_def upload_unparsed_def asking_def initial_state_def

lemmas upload_eval = handleFileUpload_def upload_response_def in_order_def isValidType_def
  allowedTypes_def ok_def interpolated_def fetchDocuments_start_def fetchDocuments_resume_def
  or_empty_def

lemmas ask_eval = askQuestion_def ask_response_def ok_def or_empty_def utf16_def trim_def
  isWhiteSpace_def

lemma sample_file_valid:
  "\<exists>ext \<in> set [''.txt'', ''.pdf'', ''.doc'', ''.docx'']. suffix ext (toLowerCase (name sample_file))"
  by (simp add: sample_file_def endsWith_suffix[symmetric] string_eval)

lemma asking_nonblank: "trim (question asking) \<noteq> []"
  by (simp add: sample_eval utf16_def trim_def isWhiteSpace_def)

subsection \<open>The busy flag\<close>

lemma run_keeps_loading: "\<forall>e \<in> set evs. \<not> sets_loading e \<Longrightarrow> loading (run s evs) = loading s"
proof (induction evs arbitrary: s)
  case Nil
  then show ?case by (simp add: run_Nil)
next
  case (Cons e evs)
  then have "loading (apply_event s e) = loading s"
    by (cases e) (simp_all add: sets_loading_def)
  with Cons show ?case by (simp add: run_Cons)
qed

lemma busy_prefix:
  assumes mid: "\<forall>e \<in> set mid. \<not> sets_loading e"
    and n: "0 < n" "n < length (SetLoading True # mid @ [SetLoading False])"
  shows "loading (run s (take n (SetLoading True # mid @ [SetLoading False])))"
proof -
  from n obtain k where k: "n = Suc k" "k \<le> length mid"
    by (cases n) auto
  then have "take n (SetLoading True # mid @ [SetLoading False]) = SetLoading True # take k mid"
    by simp
  moreover have "\<forall>e \<in> set (take k mid). \<not> sets_loading e"
    using mid by (meson in_set_takeD)
  ultimately show ?thesis
    by (simp add: run_Cons run_keeps_loading)
qed

lemma idle_after:
  assumes mid: "\<forall>e \<in> set mid. \<not> sets_loading e" and later: "\<forall>e \<in> set later. \<not> sets_loading e"
  shows "\<not> loading (run s ((SetLoading True # mid @ [SetLoading False]) @ later))"
  using run_keeps_loading[OF later]
  by (simp add: run_append run_Cons run_Nil run_keeps_loading[OF mid])

lemma fetchDocuments_resume_quiet: "\<forall>e \<in> set (fetchDocuments_resume rd). \<not> sets_loading e"
  by (auto simp: fetchDocuments_resume_def sets_loading_def
      split: fetch_result.splits option.splits sum.splits)

lemma upload_response_quiet:
  "upload_response r rd = Inr (own, later) \<Longrightarrow>
     (\<forall>e \<in> set own. \<not> sets_loading e) \<and> (\<forall>e \<in> set later. \<not> sets_loading e)"
  using fetchDocuments_resume_quiet[of rd]
  by (auto simp: upload_response_def fetchDocuments_start_def sets_loading_def
      split: fetch_result.splits option.splits sum.splits if_splits)

lemma ask_response_quiet: "ask_response q r = Inr evs \<Longrightarrow> \<forall>e \<in> set evs. \<not> sets_loading e"
  by (auto simp: ask_response_def sets_loading_def
      split: fetch_result.splits option.splits sum.splits if_splits)

lemma handleFileUpload_shape:
  assumes "isValidType (toLowerCase (name file))"
  shows "\<exists>mid later. handleFileUpload (Some file) r rd =
           (SetLoading True # (Fetch (PostUpload file) # mid) @ [SetLoading False], later) \<and>
         (\<forall>e \<in> set (Fetch (PostUpload file) # mid). \<not> sets_loading e) \<and>
         (\<forall>e \<in> set later. \<not> sets_loading e)"
proof (cases "upload_response r rd")
  case (Inl error)
  with assms show ?thesis
    by (simp add: handleFileUpload_def sets_loading_def)
next
  case (Inr res)
  obtain own later where "res = (own, later)" by (cases res)
  with Inr upload_response_quiet[of r rd own later] assms show ?thesis
    by (simp add: handleFileUpload_def sets_loading_def)
qed

lemma askQuestion_shape:
  assumes "trim (question s) \<noteq> []"
  shows "\<exists>mid. askQuestion s r =
           SetLoading True # (Fetch (PostAsk (question s)) # mid) @ [SetLoading False] \<and>
         (\<forall>e \<in> set (Fetch (PostAsk (question s)) # mid). \<not> sets_loading e)"
proof (cases "ask_response (question s) r")
  case (Inl error)
  with assms show ?thesis by (simp add: askQuestion_def sets_loading_def)
next
  case (Inr evs)
  with ask_response_quiet[of "question s" r evs] assms show ?thesis
    by (simp add: askQuestion_def sets_loading_def)
qed

text \<open>
  C5. An upload of a file with an allowed extension, in any state \<open>s0\<close>, and a question
  whose trimmed text is not empty: the handler first sets \<open>loading\<close> and then issues its
  request; after every action but the last \<open>loading\<close> is true; after the last (the
  \<open>finally\<close> block, whatever the outcomes \<open>r\<close>, \<open>rd\<close> and \<open>ra\<close> of the requests are) it is
  false, and it stays false when the document list started by the upload arrives.
\<close>

theorem loading_span:
  assumes valid: "\<exists>ext \<in> set [''.txt'', ''.pdf'', ''.doc'', ''.docx''].
                    suffix ext (toLowerCase (name file))"
    and nonblank: "trim (question s) \<noteq> []"
  shows "take 2 (fst (handleFileUpload (Some file) r rd)) =
           [SetLoading True, Fetch (PostUpload file)] \<and>
         (\<forall>n. 0 < n \<and> n < length (fst (handleFileUpload (Some file) r rd)) \<longrightarrow>
            loading (run s0 (take n (fst (handleFileUpload (Some file) r rd))))) \<and>
         \<not> loading (run s0 (fst (handleFileUpload (Some file) r rd))) \<and>
         \<not> loading (run s0 (in_order (handleFileUpload (Some file) r rd))) \<and>
         take 2 (askQuestion s ra) = [SetLoading True, Fetch (PostAsk (question s))] \<and>
         (\<forall>n. 0 < n \<and> n < length (askQuestion s ra) \<longrightarrow>
            loading (run s (take n (askQuestion s ra)))) \<and>
         \<not> loading (run s (askQuestion s ra))"
proof -
  from valid have v: "isValidType (toLowerCase (name file))"
    by (simp only: isValidType_suffix)
  from handleFileUpload_shape[OF v, of r rd] obtain mid later where
    u: "handleFileUpload (Some file) r rd =
          (SetLoading True # (Fetch (PostUpload file) # mid) @ [SetLoading False], later)"
    and um: "\<forall>e \<in> set (Fetch (PostUpload file) # mid). \<not> sets_loading e"
    and ul: "\<forall>e \<in> set later. \<not> sets_loading e"
    by blast
  from askQuestion_shape[OF nonblank, of ra] obtain amid where
    a: "askQuestion s ra =
          SetLoading True # (Fetch (PostAsk (question s)) # amid) @ [SetLoading False]"
    and am: "\<forall>e \<in> set (Fetch (PostAsk (question s)) # amid). \<not> sets_loading e"
    by blast
  have u1: "take 2 (fst (handleFileUpload (Some file) r rd)) =
      [SetLoading True, Fetch (PostUpload file)]"
    by (simp add: u)
  have u2: "\<forall>n. 0 < n \<and> n < length (fst (handleFileUpload (Some file) r rd)) \<longrightarrow>
            loading (run s0 (take n (fst (handleFileUpload (Some file) r rd))))"
    using busy_prefix[OF um] by (simp only: u fst_conv) blast
  have u3: "\<not> loading (run s0 (fst (handleFileUpload (Some file) r rd)))"
    using idle_after[OF um, of "[]" s0] by (simp add: u)
  have u4: "\<not> loading (run s0 (in_order (handleFileUpload (Some file) r rd)))"
    using idle_after[OF um ul, of s0] by (simp add: u in_order_def)
  have a1: "take 2 (askQuestion s ra) = [SetLoading True, Fetch (PostAsk (question s))]"
    by (simp add: a)
  have a2: "\<forall>n. 0 < n \<and> n < length (askQuestion s ra) \<longrightarrow>
      loading (run s (take n (askQuestion s ra)))"
    using busy_prefix[OF am] by (simp only: a) blast
  have a3: "\<not> loading (run s (askQuestion s ra))"
    using idle_after[OF am, of "[]" s] by (simp add: a)
  from u1 u2 u3 u4 a1 a2 a3 show ?thesis by blast
qed

theorem loading_span_witness:
  "length (fst (handleFileUpload (Some sample_file) upload_accepted list_of_one)) = 5 \<and>
   loading (run initial_state
     (take 4 (fst (handleFileUpload (Some sample_file) upload_accepted list_of_one)))) \<and>
   \<not> loading (run initial_state
     (in_order (handleFileUpload (Some sample_file) upload_accepted list_of_one))) \<and>
   length (askQuestion asking server_error) = 4 \<and>
   loading (run asking (take 3 (askQuestion asking server_error))) \<and>
   \<not> loading (run asking (askQuestion asking server_error))"
proof -
  have lu: "length (fst (handleFileUpload (Some sample_file) upload_accepted list_of_one)) = 5"
    by (simp add: upload_eval sample_eval string_eval)
  have la: "length (askQuestion asking server_error) = 4"
    by (simp add: ask_eval sample_eval)
  show ?thesis
    using lu la
      loading_span[OF sample_file_valid asking_nonblank,
        of upload_accepted list_of_one initial_state server_error]
    by simp
qed

subsection \<open>The liveness probe\<close>

text \<open>
  C6. When the probe's request settles, \<open>apiStatus\<close> is \<open>Online\<close> for a response with a
  status from 200 to 299 and \<open>Offline\<close> for any other response and for a rejected
  request; it is never \<open>Checking\<close>.
\<close>

theorem checkApiStatus_settles:
  "(r = Resolved resp \<and> status resp \<in> {200..299} \<longrightarrow>
      apiStatus (run s (checkApiStatus r)) = Online) \<and>
   (r = Rejected \<or> (r = Resolved resp \<and> status resp \<notin> {200..299}) \<longrightarrow>
      apiStatus (run s (checkApiStatus r)) = Offline) \<and>
   apiStatus (run s (checkApiStatus r)) \<noteq> Checking"
  by (cases r) (auto simp: checkApiStatus_def ok_def run_Cons run_Nil)

theorem checkApiStatus_settles_witness:
  "apiStatus (run initial_state (checkApiStatus answer_given)) = Online \<and>
   apiStatus (run initial_state (checkApiStatus Rejected)) = Offline \<and>
   apiStatus (run initial_state (checkApiStatus server_error)) = Offline"
proof -
  have a: "apiStatus (run initial_state (checkApiStatus answer_given)) = Online"
    using checkApiStatus_settles[where r = answer_given and s = initial_state
        and resp = "\<lparr>status = 200,
          body = Some (JObj [(''answer'', JStr ''X is Y''),
                             (''sources'', JArr [JObj [(''filename'', JStr ''a.txt'')]])])\<rparr>"]
    by (simp add: answer_given_def)
  have b: "apiStatus (run initial_state (checkApiStatus Rejected)) = Offline"
    using checkApiStatus_settles[where r = Rejected and s = initial_state] by simp
  have c: "apiStatus (run initial_state (checkApiStatus server_error)) = Offline"
    using checkApiStatus_settles[where r = server_error and s = initial_state
        and resp = "\<lparr>status = 500,
          body = Some (JObj [(''detail'', JStr ''Internal Server Error'')])\<rparr>"]
    by (simp add: server_error_def)
  from a b c show ?thesis by simp
qed

subsection \<open>Refreshing the document list\<close>

text \<open>
  C1. \<open>fetchDocuments\<close> does not look at the status of the response. One document is
  listed; the list request is answered with status 500 and the JSON body
  \<open>{"detail": "Internal Server Error"}\<close>: the body parses, it has no member
  \<open>documents\<close>, and \<open>setDocuments(data.documents || [])\<close> empties the list. Nothing is
  logged and no alert is shown.
\<close>

theorem fetchDocuments_error_response:
  "(\<exists>resp. server_error = Resolved resp \<and> status resp = 500 \<and> \<not> ok resp) \<and>
   fetchDocuments server_error = [Fetch GetDocuments, SetDocuments (JArr [])] \<and>
   documents (initial_state\<lparr>documents := JArr [sample_document]\<rparr>) = JArr [sample_document] \<and>
   documents (run (initial_state\<lparr>documents := JArr [sample_document]\<rparr>)
     (fetchDocuments server_error)) = JArr []"
  by (simp add: server_error_def ok_def fetchDocuments_def fetchDocuments_start_def
      fetchDocuments_resume_def or_empty_def run_Cons run_Nil)

text \<open>
  What does hold: a rejected request, a body that is not JSON and the body \<open>null\<close> leave
  the whole state as it is, with a console diagnostic and no alert.
\<close>

lemma fetchDocuments_no_data:
  assumes "r = Rejected \<or> (r = Resolved resp \<and> (body resp = None \<or> body resp = Some JNull))"
  shows "run s (fetchDocuments r) = s \<and> alerts (fetchDocuments r) = [] \<and>
         (\<exists>error. fetchDocuments r = [Fetch GetDocuments, ConsoleError error])"
  using assms
  by (auto simp: fetchDocuments_def fetchDocuments_start_def fetchDocuments_resume_def
      run_Cons run_Nil)

subsection \<open>Asking a question\<close>

text \<open>
  C9. When the trimmed question is empty (the question is empty or made of white space
  and line terminators only, whichever of them), \<open>askQuestion\<close> issues no request, shows
  no alert and leaves the state (documents, chat history, question, busy flag) as it is.
\<close>

theorem askQuestion_blank:
  assumes "trim (question s) = []"
  shows "requests (askQuestion s r) = [] \<and> alerts (askQuestion s r) = [] \<and>
         run s (askQuestion s r) = s"
  using assms by (simp add: askQuestion_def run_Nil)

theorem askQuestion_blank_witness:
  "trim (question (asking\<lparr>question := [0x0020, 0x00A0, 0x3000, 0xFEFF, 0x2028, 0x0009]\<rparr>)) = [] \<and>
   requests (askQuestion (asking\<lparr>question := [0x0020, 0x00A0, 0x3000, 0xFEFF, 0x2028, 0x0009]\<rparr>)
     answer_given) = [] \<and>
   alerts (askQuestion (asking\<lparr>question := [0x0020, 0x00A0, 0x3000, 0xFEFF, 0x2028, 0x0009]\<rparr>)
     answer_given) = [] \<and>
   run (asking\<lparr>question := [0x0020, 0x00A0, 0x3000, 0xFEFF, 0x2028, 0x0009]\<rparr>)
     (askQuestion (asking\<lparr>question := [0x0020, 0x00A0, 0x3000, 0xFEFF, 0x2028, 0x0009]\<rparr>)
        answer_given) =
     asking\<lparr>question := [0x0020, 0x00A0, 0x3000, 0xFEFF, 0x2028, 0x0009]\<rparr> \<and>
   requests (askQuestion (asking\<lparr>question := []\<rparr>) answer_given) = []"
proof -
  have h: "trim (question (asking\<lparr>question := [0x0020, 0x00A0, 0x3000, 0xFEFF, 0x2028, 0x0009]\<rparr>)) = []"
    by (simp add: trim_def isWhiteSpace_def)
  have e: "trim (question (asking\<lparr>question := []\<rparr>)) = []"
    by (simp add: trim_def)
  show ?thesis
    using h askQuestion_blank[OF h, of answer_given] askQuestion_blank[OF e, of answer_given]
    by blast
qed

text \<open>
  C2. When the request of \<open>askQuestion\<close> is rejected or answered with a status outside
  200 to 299, the chat history and the question are as before, and (a request having
  been made, that is the trimmed question not being empty) exactly one alert, the
  failure notice, is shown.
\<close>

theorem askQuestion_failure:
  assumes "r = Rejected \<or> (r = Resolved resp \<and> status resp \<notin> {200..299})"
  shows "chatHistory (run s (askQuestion s r)) = chatHistory s \<and>
         question (run s (askQuestion s r)) = question s \<and>
         (trim (question s) \<noteq> [] \<longrightarrow> alerts (askQuestion s r) = [AskFailed])"
  using assms
  by (auto simp: askQuestion_def ask_response_def ok_def run_Cons run_Nil)

theorem askQuestion_failure_witness:
  "chatHistory (run asking (askQuestion asking server_error)) = chatHistory asking \<and>
   question (run asking (askQuestion asking server_error)) = question asking \<and>
   alerts (askQuestion asking server_error) = [AskFailed] \<and>
   alerts (askQuestion asking Rejected) = [AskFailed]"
proof -
  have a: "server_error = Resolved \<lparr>status = 500,
          body = Some (JObj [(''detail'', JStr ''Internal Server Error'')])\<rparr> \<and>
      status \<lparr>status = 500,
          body = Some (JObj [(''detail'', JStr ''Internal Server Error'')])\<rparr> \<notin> {200..299}"
    by (simp add: server_error_def)
  show ?thesis
    using asking_nonblank
      askQuestion_failure[of server_error "\<lparr>status = 500,
          body = Some (JObj [(''detail'', JStr ''Internal Server Error'')])\<rparr>" asking, OF disjI2, OF a]
      askQuestion_failure[of Rejected _ asking, OF disjI1, OF refl]
    by simp
qed

text \<open>
  C3. The trimmed question is not empty and the request is answered with a status from
  200 to 299 and an object with the member \<open>answer\<close> and a member \<open>sources\<close> that is an
  array or is missing: exactly one message is appended to the chat history, made of the
  question asked, the answer and the sources (the empty array when missing), and the
  question is cleared.
\<close>

theorem askQuestion_success:
  assumes "trim (question s) \<noteq> []"
    and "r = Resolved resp" and "status resp \<in> {200..299}"
    and "body resp = Some (JObj members)"
    and "map_of (rev members) ''answer'' = Some a"
    and "map_of (rev members) ''sources'' = srcs"
    and "srcs = None \<or> (\<exists>xs. srcs = Some (JArr xs))"
  shows "chatHistory (run s (askQuestion s r)) =
           chatHistory s @
           [\<lparr>cm_question = question s, cm_answer = Some a,
             cm_sources = (case srcs of None \<Rightarrow> JArr [] | Some v \<Rightarrow> v)\<rparr>] \<and>
         question (run s (askQuestion s r)) = []"
  using assms
  by (auto simp: askQuestion_def ask_response_def ok_def or_empty_def run_Cons run_Nil)

theorem askQuestion_success_witness:
  "chatHistory (run asking (askQuestion asking answer_given)) =
     [\<lparr>cm_question = utf16 ''What is X?'', cm_answer = Some (JStr ''X is Y''),
       cm_sources = JArr [JObj [(''filename'', JStr ''a.txt'')]]\<rparr>] \<and>
   question (run asking (askQuestion asking answer_given)) = [] \<and>
   chatHistory (run asking (askQuestion asking
     (Resolved \<lparr>status = 201, body = Some (JObj [(''answer'', JStr ''X is Y'')])\<rparr>))) =
     [\<lparr>cm_question = utf16 ''What is X?'', cm_answer = Some (JStr ''X is Y''), cm_sources = JArr []\<rparr>]"
proof -
  have r: "answer_given = Resolved \<lparr>status = 200,
       body = Some (JObj [(''answer'', JStr ''X is Y''),
                          (''sources'', JArr [JObj [(''filename'', JStr ''a.txt'')]])])\<rparr>"
    by (simp add: answer_given_def)
  have c: "chatHistory asking = []" "question asking = utf16 ''What is X?''"
    by (simp_all add: sample_eval)
  have one: "chatHistory (run asking (askQuestion asking answer_given)) =
     [\<lparr>cm_question = utf16 ''What is X?'', cm_answer = Some (JStr ''X is Y''),
       cm_sources = JArr [JObj [(''filename'', JStr ''a.txt'')]]\<rparr>] \<and>
     question (run asking (askQuestion asking answer_given)) = []"
    using askQuestion_success[OF asking_nonblank r,
        of "[(''answer'', JStr ''X is Y''),
             (''sources'', JArr [JObj [(''filename'', JStr ''a.txt'')]])]"
        "JStr ''X is Y''" "Some (JArr [JObj [(''filename'', JStr ''a.txt'')]])"] c
    by simp
  have two: "chatHistory (run asking (askQuestion asking
     (Resolved \<lparr>status = 201, body = Some (JObj [(''answer'', JStr ''X is Y'')])\<rparr>))) =
     [\<lparr>cm_question = utf16 ''What is X?'', cm_answer = Some (JStr ''X is Y''), cm_sources = JArr []\<rparr>]"
    using askQuestion_success[OF asking_nonblank refl,
        of "\<lparr>status = 201, body = Some (JObj [(''answer'', JStr ''X is Y'')])\<rparr>"
        "[(''answer'', JStr ''X is Y'')]" "JStr ''X is Y''" None] c
    by simp
  from one two show ?thesis by simp
qed

subsection \<open>Uploading a file\<close>

text \<open>
  C4. For a file whose lowercased name ends in none of \<open>.txt\<close>, \<open>.pdf\<close>, \<open>.doc\<close> and
  \<open>.docx\<close>, \<open>handleFileUpload\<close> issues no request, shows one alert (the notice about
  file types) and leaves the state as it is.
\<close>

theorem handleFileUpload_invalid_type:
  assumes "\<not> (\<exists>ext \<in> set [''.txt'', ''.pdf'', ''.doc'', ''.docx''].
                suffix ext (toLowerCase (name file)))"
  shows "requests (in_order (handleFileUpload (Some file) r rd)) = [] \<and>
         alerts (in_order (handleFileUpload (Some file) r rd)) = [InvalidFileType] \<and>
         run s (in_order (handleFileUpload (Some file) r rd)) = s"
proof -
  from assms have "\<not> isValidType (toLowerCase (name file))"
    by (simp only: isValidType_suffix not_False_eq_True)
  then show ?thesis
    by (simp add: handleFileUpload_def in_order_def run_Cons run_Nil)
qed

theorem handleFileUpload_invalid_type_witness:
  "requests (in_order (handleFileUpload (Some \<lparr>name = ''photo.PNG''\<rparr>) upload_accepted list_of_one)) = [] \<and>
   alerts (in_order (handleFileUpload (Some \<lparr>name = ''photo.PNG''\<rparr>) upload_accepted list_of_one)) =
     [InvalidFileType] \<and>
   run asking (in_order (handleFileUpload (Some \<lparr>name = ''photo.PNG''\<rparr>) upload_accepted list_of_one)) =
     asking"
proof -
  have h: "\<not> (\<exists>ext \<in> set [''.txt'', ''.pdf'', ''.doc'', ''.docx''].
             suffix ext (toLowerCase (name \<lparr>name = ''photo.PNG''\<rparr>)))"
    by (simp add: endsWith_suffix[symmetric] string_eval)
  show ?thesis
    using handleFileUpload_invalid_type[OF h] by blast
qed

text \<open>
  C8, as stated, fails: an upload answered with status 200 and a body that is not JSON
  is handled as a failure. \<open>response.json()\<close> rejects, the \<open>catch\<close> block shows
  \<open>Upload failed: ...\<close>, \<open>fetchDocuments\<close> is not called and the document list is not
  refreshed.
\<close>

theorem upload_unparsed_no_refresh:
  "status \<lparr>status = 200, body = None\<rparr> \<in> {200..299} \<and>
   requests (in_order (handleFileUpload (Some sample_file) upload_unparsed list_of_one)) =
     [PostUpload sample_file] \<and>
   alerts (in_order (handleFileUpload (Some sample_file) upload_unparsed list_of_one)) =
     [UploadFailedWith SyntaxError] \<and>
   documents (run initial_state
     (in_order (handleFileUpload (Some sample_file) upload_unparsed list_of_one))) = JArr []"
  by (simp add: upload_eval sample_eval string_eval run_Cons run_Nil)

text \<open>
  C8, amended. For a file with an allowed extension: when the upload is answered with a
  status from 200 to 299 and a body from which the confirmation can be built (it parses
  as JSON, is not \<open>null\<close>, and \<open>filename\<close> and \<open>file_type\<close> convert to strings), the
  confirmation is shown and exactly one request for the document list is issued, after
  the upload request; when that request is answered with an object whose member
  \<open>documents\<close> is an array, \<open>documents\<close> is that array afterwards. When the upload is rejected or answered with another status,
  no request for the document list is issued.
\<close>

theorem handleFileUpload_refresh:
  assumes valid: "\<exists>ext \<in> set [''.txt'', ''.pdf'', ''.doc'', ''.docx''].
                    suffix ext (toLowerCase (name file))"
  shows "(r = Resolved resp \<and> status resp \<in> {200..299} \<and> body resp = Some result \<and>
          interpolated result ''filename'' = Inr fn \<and>
          interpolated result ''file_type'' = Inr ft \<longrightarrow>
            requests (in_order (handleFileUpload (Some file) r rd)) =
              [PostUpload file, GetDocuments] \<and>
            hd (alerts (in_order (handleFileUpload (Some file) r rd))) = UploadSucceeded fn ft \<and>
            (rd = Resolved respd \<and> body respd = Some (JObj members) \<and>
               map_of (rev members) ''documents'' = Some (JArr docs) \<longrightarrow>
               documents (run s (in_order (handleFileUpload (Some file) r rd))) = JArr docs)) \<and>
         (r = Rejected \<or> (r = Resolved resp \<and> status resp \<notin> {200..299}) \<longrightarrow>
            requests (in_order (handleFileUpload (Some file) r rd)) = [PostUpload file])"
proof -
  from valid have v: "isValidType (toLowerCase (name file))"
    by (simp only: isValidType_suffix)
  have fail: "requests (in_order (handleFileUpload (Some file) r rd)) = [PostUpload file]"
    if "r = Rejected \<or> (r = Resolved resp \<and> status resp \<notin> {200..299})"
    using that v by (auto simp: handleFileUpload_def upload_response_def in_order_def ok_def)
  have succ: "requests (in_order (handleFileUpload (Some file) r rd)) =
              [PostUpload file, GetDocuments] \<and>
            hd (alerts (in_order (handleFileUpload (Some file) r rd))) = UploadSucceeded fn ft \<and>
            (rd = Resolved respd \<and> body respd = Some (JObj members) \<and>
               map_of (rev members) ''documents'' = Some (JArr docs) \<longrightarrow>
               documents (run s (in_order (handleFileUpload (Some file) r rd))) = JArr docs)"
    if r: "r = Resolved resp" and st: "status resp \<in> {200..299}"
      and b: "body resp = Some result"
      and p: "interpolated result ''filename'' = Inr fn" "interpolated result ''file_type'' = Inr ft"
  proof -
    have h: "handleFileUpload (Some file) r rd =
        ([SetLoading True, Fetch (PostUpload file), Alert (UploadSucceeded fn ft),
          Fetch GetDocuments, SetLoading False], fetchDocuments_resume rd)"
      using v r st b p
      by (simp add: handleFileUpload_def upload_response_def ok_def fetchDocuments_start_def)
    have "requests (fetchDocuments_resume rd) = []"
      by (simp add: fetchDocuments_resume_def split: fetch_result.splits option.splits sum.splits)
    then have one: "requests (in_order (handleFileUpload (Some file) r rd)) =
        [PostUpload file, GetDocuments]"
      by (simp add: h in_order_def)
    have alert: "hd (alerts (in_order (handleFileUpload (Some file) r rd))) = UploadSucceeded fn ft"
      by (simp add: h in_order_def)
    have two: "documents (run s (in_order (handleFileUpload (Some file) r rd))) = JArr docs"
      if "rd = Resolved respd" "body respd = Some (JObj members)"
        "map_of (rev members) ''documents'' = Some (JArr docs)"
      unfolding h in_order_def fst_conv snd_conv using that
      by (simp add: fetchDocuments_resume_def or_empty_def run_append run_Cons run_Nil)
    from one alert two show ?thesis by blast
  qed
  from fail succ show ?thesis by blast
qed

theorem handleFileUpload_refresh_witness:
  "requests (in_order (handleFileUpload (Some sample_file) upload_accepted list_of_one)) =
     [PostUpload sample_file, GetDocuments] \<and>
   documents (run initial_state
     (in_order (handleFileUpload (Some sample_file) upload_accepted list_of_one))) =
     JArr [sample_document] \<and>
   requests (in_order (handleFileUpload (Some sample_file) server_error list_of_one)) =
     [PostUpload sample_file] \<and>
   requests (in_order (handleFileUpload (Some sample_file) Rejected list_of_one)) =
     [PostUpload sample_file]"
proof -
  have a: "requests (in_order (handleFileUpload (Some sample_file) upload_accepted list_of_one)) =
       [PostUpload sample_file, GetDocuments] \<and>
     documents (run initial_state
       (in_order (handleFileUpload (Some sample_file) upload_accepted list_of_one))) =
       JArr [sample_document]"
    using handleFileUpload_refresh[OF sample_file_valid,
        where r = upload_accepted and rd = list_of_one and s = initial_state
        and resp = "\<lparr>status = 200,
          body = Some (JObj [(''filename'', JStr ''Report.PDF''), (''file_type'', JStr ''pdf'')])\<rparr>"
        and result = "JObj [(''filename'', JStr ''Report.PDF''), (''file_type'', JStr ''pdf'')]"
        and fn = "Some (JStr ''Report.PDF'')" and ft = "Some (JStr ''pdf'')"
        and respd = "\<lparr>status = 200, body = Some (JObj [(''documents'', JArr [sample_document])])\<rparr>"
        and members = "[(''documents'', JArr [sample_document])]" and docs = "[sample_document]"]
    by (simp add: upload_accepted_def list_of_one_def interpolated_def)
  have b: "requests (in_order (handleFileUpload (Some sample_file) server_error list_of_one)) =
       [PostUpload sample_file]"
    using handleFileUpload_refresh[OF sample_file_valid,
        where r = server_error and rd = list_of_one
        and resp = "\<lparr>status = 500,
          body = Some (JObj [(''detail'', JStr ''Internal Server Error'')])\<rparr>"]
    by (simp add: server_error_def)
  have c: "requests (in_order (handleFileUpload (Some sample_file) Rejected list_of_one)) =
       [PostUpload sample_file]"
    using handleFileUpload_refresh[OF sample_file_valid, where r = Rejected and rd = list_of_one]
    by simp
  from a b c show ?thesis by simp
qed

end
